theory Spec2Isabelle
  imports Main "HOL-Library.Monad_Syntax"
begin

section \<open>JSON values as the server sees them\<close>

text \<open>
  The server keeps its collections in JSON files and receives JSON request bodies.
  A value produced by \<^verbatim>\<open>JSON.parse\<close> is one of the constructors below. A number is
  represented by its canonical rendering \<^verbatim>\<open>String(n)\<close> (so both zeros are \<open>''0''\<close>; NaN
  and the infinities do not occur in JSON), a string by its code units (code units
  above 255 are outside the model), an object by the partial map from its own property
  names to their values. The JavaScript value \<^verbatim>\<open>undefined\<close> is \<open>None\<close> of
  \<open>json option\<close>; a property that is absent and a property that holds
  \<^verbatim>\<open>undefined\<close> read the same and serialise the same, so both are \<open>None\<close>.
\<close>

datatype json =
    JNull
  | JBool bool
  | JNum string
  | JStr string
  | JArr "json list"
  | JObj "string \<Rightarrow> json option"

type_synonym obj = "string \<Rightarrow> json option"

text \<open>
  An exception thrown inside a request handler is caught by the handler's single
  \<^verbatim>\<open>catch\<close> block, which does not look at it. So a computation that may throw returns
  an \<open>option\<close>, \<open>None\<close> meaning "threw".
\<close>

text \<open>Truthiness of a value, as \<^verbatim>\<open>if (v)\<close>, \<^verbatim>\<open>v && ...\<close> and \<^verbatim>\<open>v || ...\<close> test it.\<close>

fun truthy :: "json option \<Rightarrow> bool" where
  "truthy None = False"
| "truthy (Some JNull) = False"
| "truthy (Some (JBool b)) = b"
| "truthy (Some (JNum s)) = (s \<noteq> ''0'')"
| "truthy (Some (JStr s)) = (s \<noteq> [])"
| "truthy (Some (JArr xs)) = True"
| "truthy (Some (JObj m)) = True"

text \<open>\<^verbatim>\<open>a || b\<close>\<close>

definition js_or :: "json option \<Rightarrow> json option \<Rightarrow> json option" where
  "js_or a b = (if truthy a then a else b)"

text \<open>
  \<^verbatim>\<open>a === b\<close> for two values that come from different parses (a stored record against a
  request parameter): primitives compare by value, objects and arrays by identity, and
  two separately parsed objects are never the same object.
\<close>

fun strict_eq :: "json option \<Rightarrow> json option \<Rightarrow> bool" where
  "strict_eq None None = True"
| "strict_eq (Some JNull) (Some JNull) = True"
| "strict_eq (Some (JBool a)) (Some (JBool b)) = (a = b)"
| "strict_eq (Some (JNum a)) (Some (JNum b)) = (a = b)"
| "strict_eq (Some (JStr a)) (Some (JStr b)) = (a = b)"
| "strict_eq _ _ = False"

text \<open>
  Property read \<^verbatim>\<open>v.k\<close>: a TypeError on \<^verbatim>\<open>null\<close>, the own property of an object,
  \<^verbatim>\<open>undefined\<close> on every other value. (The handlers read only the names
  \<open>username\<close>, \<open>email\<close>, \<open>submittedAt\<close>, \<open>isEditedVersion\<close>,
  \<open>originalSubmissionId\<close>, \<open>id\<close>, \<open>status\<close>, \<open>author\<close>, \<open>cases\<close>,
  \<open>tensions\<close>, \<open>value\<close> and \<open>definition\<close> this way, none of which a string, an
  array, a number or a boolean inherits.)
\<close>

fun field :: "json \<Rightarrow> string \<Rightarrow> json option option" where
  "field JNull k = None"
| "field (JObj m) k = Some (m k)"
| "field _ k = Some None"

text \<open>Decimal rendering of an array index.\<close>

fun dec :: "nat \<Rightarrow> string" where
  "dec n = (if n < 10 then [''0123456789'' ! n]
            else dec (n div 10) @ [''0123456789'' ! (n mod 10)])"

declare dec.simps [simp del]

text \<open>
  The own enumerable properties that an object spread \<^verbatim>\<open>{...v}\<close> copies: those of an
  object, the indexed elements of an array, the indexed code units of a string, and
  nothing for \<^verbatim>\<open>undefined\<close>, \<^verbatim>\<open>null\<close>, a number or a boolean.
\<close>

definition indexed :: "json list \<Rightarrow> obj" where
  "indexed xs = map_of (zip (map dec [0..<length xs]) xs)"

fun own_props :: "json option \<Rightarrow> obj" where
  "own_props (Some (JObj m)) = m"
| "own_props (Some (JArr xs)) = indexed xs"
| "own_props (Some (JStr s)) = indexed (map (\<lambda>c. JStr [c]) s)"
| "own_props _ = Map.empty"

text \<open>
  The object literal \<^verbatim>\<open>{...a, ...b}\<close>: the properties of \<open>a\<close>, then those of \<open>b\<close>
  written over them. Longer literals nest it to the left, as the literal is evaluated.
\<close>

definition shallow_merge :: "json option \<Rightarrow> json option \<Rightarrow> obj" where
  "shallow_merge a b = own_props a ++ own_props b"

definition shallow_merge3 :: "json option \<Rightarrow> json option \<Rightarrow> json option \<Rightarrow> obj" where
  "shallow_merge3 a b c = own_props (Some (JObj (shallow_merge a b))) ++ own_props c"

text \<open>
  \<^verbatim>\<open>String(v)\<close>, which a template literal applies to each of its holes. An array joins
  its elements with commas, \<^verbatim>\<open>null\<close> elements rendered empty. A parsed object has no
  callable \<^verbatim>\<open>toString\<close> of its own: it inherits the one that answers
  \<^verbatim>\<open>[object Object]\<close>, unless an own (hence not callable) \<open>toString\<close> property
  shadows it, and then the conversion throws a TypeError.
\<close>

fun js_string :: "json \<Rightarrow> string option"
  and js_element :: "json \<Rightarrow> string option"
  and js_join :: "json list \<Rightarrow> string option" where
  "js_string JNull = Some ''null''"
| "js_string (JBool b) = Some (if b then ''true'' else ''false'')"
| "js_string (JNum s) = Some s"
| "js_string (JStr s) = Some s"
| "js_string (JArr xs) = js_join xs"
| "js_string (JObj m) = (if m ''toString'' = None then Some ''[object Object]'' else None)"
| "js_element JNull = Some []"
| "js_element (JBool b) = js_string (JBool b)"
| "js_element (JNum s) = js_string (JNum s)"
| "js_element (JStr s) = js_string (JStr s)"
| "js_element (JArr xs) = js_string (JArr xs)"
| "js_element (JObj m) = js_string (JObj m)"
| "js_join [] = Some []"
| "js_join [x] = js_element x"
| "js_join (x # y # ys) =
     do { a \<leftarrow> js_element x; b \<leftarrow> js_join (y # ys); Some (a @ '','' @ b) }"

definition template_hole :: "json option \<Rightarrow> string option" where
  "template_hole v = (case v of None \<Rightarrow> Some ''undefined'' | Some j \<Rightarrow> js_string j)"

section \<open>Submission identity\<close>

text \<open>
  The template literal \<^verbatim>\<open>`${sub.username}|${sub.email}|${sub.submittedAt}`\<close> of the
  edit handler (lines 417, 431 and 463).
\<close>

definition identityKey :: "json \<Rightarrow> string option" where
  "identityKey sub =
     do {
       username \<leftarrow> field sub ''username'';
       u \<leftarrow> template_hole username;
       email \<leftarrow> field sub ''email'';
       e \<leftarrow> template_hole email;
       submittedAt \<leftarrow> field sub ''submittedAt'';
       t \<leftarrow> template_hole submittedAt;
       Some (u @ ''|'' @ e @ ''|'' @ t)
     }"

section \<open>Arrays\<close>

text \<open>
  \<^verbatim>\<open>Array.prototype.find\<close> and \<^verbatim>\<open>findIndex\<close> with a callback that may throw: the
  elements are tried from the left, the first one for which the callback is truthy is
  the answer, and the scan stops there. \<open>Some None\<close> is \<^verbatim>\<open>undefined\<close>: no element
  was found.
\<close>

fun find_js :: "('a \<Rightarrow> bool option) \<Rightarrow> 'a list \<Rightarrow> 'a option option" where
  "find_js p [] = Some None"
| "find_js p (x # xs) =
     (case p x of
        None \<Rightarrow> None
      | Some b \<Rightarrow> if b then Some (Some x) else find_js p xs)"

fun findIndex_from :: "('a \<Rightarrow> bool option) \<Rightarrow> nat \<Rightarrow> 'a list \<Rightarrow> int option" where
  "findIndex_from p i [] = Some (- 1)"
| "findIndex_from p i (x # xs) =
     (case p x of
        None \<Rightarrow> None
      | Some b \<Rightarrow> if b then Some (int i) else findIndex_from p (Suc i) xs)"

definition findIndex_js :: "('a \<Rightarrow> bool option) \<Rightarrow> 'a list \<Rightarrow> int option" where
  "findIndex_js p xs = findIndex_from p 0 xs"

text \<open>\<^verbatim>\<open>Array.prototype.filter\<close> with a callback that may throw.\<close>

fun filter_js :: "('a \<Rightarrow> bool option) \<Rightarrow> 'a list \<Rightarrow> 'a list option" where
  "filter_js p [] = Some []"
| "filter_js p (x # xs) =
     do { b \<leftarrow> p x; ys \<leftarrow> filter_js p xs; Some (if b then x # ys else ys) }"

text \<open>\<^verbatim>\<open>Array.prototype.forEach\<close> with a callback that updates a state and may throw.\<close>

fun forEach_js :: "('s \<Rightarrow> 'a \<Rightarrow> 's option) \<Rightarrow> 's \<Rightarrow> 'a list \<Rightarrow> 's option" where
  "forEach_js f s [] = Some s"
| "forEach_js f s (x # xs) = do { s' \<leftarrow> f s x; forEach_js f s' xs }"

text \<open>
  The assignment \<^verbatim>\<open>xs[i] = v\<close>, as the serialised array shows it: inside the array it
  replaces the element; at \<open>-1\<close> it sets a property that is not an element and is not
  serialised; beyond the end it extends the array, the holes serialised as
  \<^verbatim>\<open>null\<close>.
\<close>

definition assign_index :: "json list \<Rightarrow> int \<Rightarrow> json \<Rightarrow> json list" where
  "assign_index xs i v =
     (if i < 0 then xs
      else if nat i < length xs then xs[nat i := v]
      else xs @ replicate (nat i - length xs) JNull @ [v])"

text \<open>
  Calling an array method on a parsed value: anything but an array has no such method
  (an own property of that name would not be callable), and the call throws.
\<close>

fun as_array :: "json \<Rightarrow> json list option" where
  "as_array (JArr xs) = Some xs"
| "as_array _ = None"

section \<open>The record store\<close>

text \<open>
  What \<^verbatim>\<open>fs.readFile\<close> followed by \<^verbatim>\<open>JSON.parse\<close> meets: a file that is absent or
  cannot be read, a file whose text is not JSON, or a file whose text parses to a value.
  \<^verbatim>\<open>fs.writeFile(F, JSON.stringify(v))\<close> leaves \<open>Parsed v\<close> when it succeeds.
\<close>

datatype file_state = Unreadable | Malformed | Parsed json

fun read_json :: "file_state \<Rightarrow> json option" where
  "read_json (Parsed v) = Some v"
| "read_json _ = None"

text \<open>\<^verbatim>\<open>loadSubmissions\<close> (lines 33-40) and \<^verbatim>\<open>loadFocusGroupSubmissions\<close> (lines 62-69).\<close>

definition loadSubmissions :: "file_state \<Rightarrow> json" where
  "loadSubmissions file = (case read_json file of Some v \<Rightarrow> v | None \<Rightarrow> JArr [])"

definition loadFocusGroupSubmissions :: "file_state \<Rightarrow> json" where
  "loadFocusGroupSubmissions file = (case read_json file of Some v \<Rightarrow> v | None \<Rightarrow> JArr [])"

text \<open>
  What a request handler cannot choose: the results of its successive
  \<^verbatim>\<open>new Date().toISOString()\<close> calls (\<open>now 0\<close> is the first call of the request), and
  whether its \<^verbatim>\<open>fs.writeFile\<close> succeeds. A write that fails throws, and is taken to
  leave the file as it was.
\<close>

record env =
  now :: "nat \<Rightarrow> string"
  write_ok :: bool

section \<open>Edit reconciliation: POST /api/save-edited-submission\<close>

record edit_request =
  originalSubmissionId :: "json option"
  editedData :: "json option"
  facilitatorComment :: "json option"
  editedBy :: "json option"

text \<open>The three \<^verbatim>\<open>find\<close> callbacks (lines 416-418, 425-427 and 430-432).\<close>

definition is_original :: "json option \<Rightarrow> json \<Rightarrow> bool option" where
  "is_original oid sub =
     do { k \<leftarrow> identityKey sub; Some (strict_eq (Some (JStr k)) oid) }"

definition is_edited_version_of :: "json option \<Rightarrow> json \<Rightarrow> bool option" where
  "is_edited_version_of oid sub =
     do {
       isEditedVersion \<leftarrow> field sub ''isEditedVersion'';
       if truthy isEditedVersion
       then do { osid \<leftarrow> field sub ''originalSubmissionId''; Some (strict_eq osid oid) }
       else Some False
     }"

definition is_edited_with_key :: "json option \<Rightarrow> json \<Rightarrow> bool option" where
  "is_edited_with_key oid sub =
     do {
       isEditedVersion \<leftarrow> field sub ''isEditedVersion'';
       if truthy isEditedVersion
       then do { k \<leftarrow> identityKey sub; Some (strict_eq (Some (JStr k)) oid) }
       else Some False
     }"

text \<open>The three object literals that build \<^verbatim>\<open>newSubmission\<close> (lines 439-445, 454-459, 468-476).\<close>

definition updated_edit :: "env \<Rightarrow> edit_request \<Rightarrow> json \<Rightarrow> json \<Rightarrow> obj" where
  "updated_edit e req originalSubmission existingEditedVersion =
     (shallow_merge3 (Some originalSubmission) (Some existingEditedVersion) (editedData req))
       (''editTimestamp'' := Some (JStr (now e 0)),
        ''editedBy'' := js_or (editedBy req) (Some (JStr ''unknown'')))"

definition updated_in_place :: "env \<Rightarrow> edit_request \<Rightarrow> json \<Rightarrow> obj" where
  "updated_in_place e req isEditingEditedVersion =
     (shallow_merge (Some isEditingEditedVersion) (editedData req))
       (''editTimestamp'' := Some (JStr (now e 0)),
        ''editedBy'' := js_or (editedBy req) (Some (JStr ''unknown'')))"

definition new_edit :: "env \<Rightarrow> edit_request \<Rightarrow> json \<Rightarrow> obj" where
  "new_edit e req originalSubmission =
     (shallow_merge (Some originalSubmission) (editedData req))
       (''submittedAt'' := Some (JStr (now e 0)),
        ''isEditedVersion'' := Some (JBool True),
        ''originalSubmissionId'' := originalSubmissionId req,
        ''editedBy'' := js_or (editedBy req) (Some (JStr ''unknown'')),
        ''editTimestamp'' := Some (JStr (now e 1)))"

text \<open>
  The outcome of lines 413-481: the early 404 return of line 421 (\<open>Missing\<close>), or the
  updated array, the new record and the new-version flag.
\<close>

datatype reconciled = Missing | Reconciled "json list" obj bool

text \<open>Lines 424-481, once the original submission has been found.\<close>

definition apply_edit :: "env \<Rightarrow> json list \<Rightarrow> edit_request \<Rightarrow> json \<Rightarrow> reconciled option" where
  "apply_edit e focusGroupData req originalSubmission =
     do {
       existingEditedVersion \<leftarrow>
         find_js (is_edited_version_of (originalSubmissionId req)) focusGroupData;
       isEditingEditedVersion \<leftarrow>
         find_js (is_edited_with_key (originalSubmissionId req)) focusGroupData;
       case existingEditedVersion of
         Some existing \<Rightarrow>
           do {
             let newSubmission = updated_edit e req originalSubmission existing;
             existingIndex \<leftarrow>
               findIndex_js (is_edited_version_of (originalSubmissionId req)) focusGroupData;
             Some (Reconciled (assign_index focusGroupData existingIndex (JObj newSubmission))
                     newSubmission False)
           }
       | None \<Rightarrow>
          (case isEditingEditedVersion of
             Some editing \<Rightarrow>
               do {
                 let newSubmission = updated_in_place e req editing;
                 existingIndex \<leftarrow>
                   findIndex_js (is_edited_with_key (originalSubmissionId req)) focusGroupData;
                 Some (Reconciled (assign_index focusGroupData existingIndex (JObj newSubmission))
                         newSubmission False)
               }
           | None \<Rightarrow>
               (let newSubmission = new_edit e req originalSubmission
                in Some (Reconciled (focusGroupData @ [JObj newSubmission])
                           newSubmission True)))
     }"

text \<open>
  Lines 413-422: the scan for the original and the guard \<^verbatim>\<open>if (!originalSubmission)\<close>,
  which tests the truthiness of what the scan returned: \<^verbatim>\<open>undefined\<close> when nothing
  matched, the matching element otherwise (and an element of the array can itself be
  falsy: \<^verbatim>\<open>0\<close>, \<^verbatim>\<open>false\<close> or the empty string).
\<close>

definition reconcile :: "env \<Rightarrow> json \<Rightarrow> edit_request \<Rightarrow> reconciled option" where
  "reconcile e parsed req =
     do {
       focusGroupData \<leftarrow> as_array parsed;
       found \<leftarrow> find_js (is_original (originalSubmissionId req)) focusGroupData;
       case found of
         None \<Rightarrow> Some Missing
       | Some originalSubmission \<Rightarrow>
           if \<not> truthy found then Some Missing
           else apply_edit e focusGroupData req originalSubmission
     }"

text \<open>
  \<^verbatim>\<open>String.prototype.trim\<close>: white space is stripped at both ends. Among the code units
  of the model the white space ones are tab, line feed, vertical tab, form feed, carriage
  return, space and the no-break space.
\<close>

definition js_space :: "char \<Rightarrow> bool" where
  "js_space c = (of_char c \<in> {9, 10, 11, 12, 13, 32, 160 :: nat})"

definition trim :: "string \<Rightarrow> string" where
  "trim s = rev (dropWhile js_space (rev (dropWhile js_space s)))"

text \<open>
  Lines 487-492, after the file has been written: the comment is set on the
  \<^verbatim>\<open>newSubmission\<close> object in memory. A truthy comment that is not a string has no
  \<^verbatim>\<open>trim\<close> method, and the call throws. The time stamp is the next reading of the
  clock after those of the object literal (\<open>n\<close> of them).
\<close>

definition add_comment :: "env \<Rightarrow> edit_request \<Rightarrow> nat \<Rightarrow> obj \<Rightarrow> obj option" where
  "add_comment e req n newSubmission =
     (if truthy (facilitatorComment req)
      then (case facilitatorComment req of
              Some (JStr s) \<Rightarrow>
                if trim s \<noteq> []
                then Some (newSubmission
                       (''facilitatorComment'' := facilitatorComment req,
                        ''facilitatorCommentTimestamp'' := Some (JStr (now e n)),
                        ''facilitatorCommentBy'' := js_or (editedBy req) (Some (JStr ''unknown''))))
                else Some newSubmission
            | _ \<Rightarrow> None)
      else Some newSubmission)"

text \<open>
  The responses of the handlers (\<open>EditSaved message newSubmissionId isNewVersion\<close>,
  \<open>Updated message data\<close>, \<open>History data count hasSubmissions\<close>, and the 404, 403
  and 500 responses with their messages), and what one request does: what it wrote to the file
  (if anything), the \<^verbatim>\<open>newSubmission\<close> object in memory when it responds, and
  the response.
\<close>

datatype response =
    EditSaved string "json option" bool
  | Updated string json
  | History "obj list" nat bool
  | NotFound string
  | Forbidden string
  | ServerError string

record outcome =
  written :: "json option"
  result_object :: "obj option"
  response :: response

definition edit_failed :: response where
  "edit_failed = ServerError ''Failed to save edited submission''"

definition save_edited_submission :: "env \<Rightarrow> file_state \<Rightarrow> edit_request \<Rightarrow> outcome" where
  "save_edited_submission e file req =
     (case do { parsed \<leftarrow> read_json file; reconcile e parsed req } of
        None \<Rightarrow> \<lparr>written = None, result_object = None, response = edit_failed\<rparr>
      | Some Missing \<Rightarrow>
          \<lparr>written = None, result_object = None,
           response = NotFound ''Original submission not found''\<rparr>
      | Some (Reconciled focusGroupData newSubmission isNewVersion) \<Rightarrow>
          if \<not> write_ok e
          then \<lparr>written = None, result_object = Some newSubmission, response = edit_failed\<rparr>
          else
            (case add_comment e req (if isNewVersion then 2 else 1) newSubmission of
               None \<Rightarrow>
                 \<lparr>written = Some (JArr focusGroupData), result_object = Some newSubmission,
                  response = edit_failed\<rparr>
             | Some commented \<Rightarrow>
                 \<lparr>written = Some (JArr focusGroupData), result_object = Some commented,
                  response =
                    EditSaved
                      (if isNewVersion then ''Edited submission saved successfully''
                       else ''Edited submission updated successfully'')
                      (commented ''submittedAt'') isNewVersion\<rparr>))"

text \<open>The file after a request: what the request wrote, or what was there.\<close>

definition file_after :: "file_state \<Rightarrow> outcome \<Rightarrow> file_state" where
  "file_after file out = (case written out of None \<Rightarrow> file | Some v \<Rightarrow> Parsed v)"

text \<open>
  A sequence of edit requests, each with its own clock readings and disk behaviour,
  against the focus-group file.
\<close>

fun run_edits :: "file_state \<Rightarrow> (env \<times> edit_request) list \<Rightarrow> file_state" where
  "run_edits file [] = file"
| "run_edits file (c # cs) =
     run_edits (file_after file (save_edited_submission (fst c) file (snd c))) cs"

text \<open>
  A stored record that is an edited version of the submission \<open>key\<close>:
  \<open>isEditedVersion\<close> is \<^verbatim>\<open>true\<close> and \<open>originalSubmissionId\<close> is \<open>key\<close>.
\<close>

definition edited_for :: "string \<Rightarrow> json \<Rightarrow> bool" where
  "edited_for key sub =
     (field sub ''isEditedVersion'' = Some (Some (JBool True)) \<and>
      field sub ''originalSubmissionId'' = Some (Some (JStr key)))"

section \<open>Updating a case study: PUT /api/case-studies/:id\<close>

text \<open>
  \<^verbatim>\<open>xs[i]\<close> for reading: \<^verbatim>\<open>undefined\<close> outside the array.
\<close>

definition element_at :: "json list \<Rightarrow> int \<Rightarrow> json option" where
  "element_at xs i = (if 0 \<le> i \<and> nat i < length xs then Some (xs ! nat i) else None)"

text \<open>Lines 145-166: the early returns, or the updated array and the updated record.\<close>

datatype updated = Refused response | Stored "json list" obj

definition has_id :: "string \<Rightarrow> json \<Rightarrow> bool option" where
  "has_id ident s = do { i \<leftarrow> field s ''id''; Some (strict_eq i (Some (JStr ident))) }"

definition apply_update :: "env \<Rightarrow> json \<Rightarrow> string \<Rightarrow> json option \<Rightarrow> updated option" where
  "apply_update e loaded ident updateFields =
     do {
       submissions \<leftarrow> as_array loaded;
       submissionIndex \<leftarrow> findIndex_js (has_id ident) submissions;
       if submissionIndex = - 1
       then Some (Refused (NotFound ''Submission not found''))
       else
         do {
           current \<leftarrow> element_at submissions submissionIndex;
           status \<leftarrow> field current ''status'';
           if \<not> strict_eq status (Some (JStr ''pending''))
           then Some (Refused (Forbidden ''Cannot edit an approved submission''))
           else
             do {
               oldId \<leftarrow> field current ''id'';
               oldSubmittedAt \<leftarrow> field current ''submittedAt'';
               let merged =
                 (shallow_merge (Some current) updateFields)
                   (''id'' := oldId,
                    ''submittedAt'' := oldSubmittedAt,
                    ''updatedAt'' := Some (JStr (now e 0)));
               Some (Stored (assign_index submissions submissionIndex (JObj merged)) merged)
             }
         }
     }"

definition update_case_study :: "env \<Rightarrow> file_state \<Rightarrow> string \<Rightarrow> json option \<Rightarrow> outcome" where
  "update_case_study e file ident updateFields =
     (case apply_update e (loadSubmissions file) ident updateFields of
        None \<Rightarrow>
          \<lparr>written = None, result_object = None,
           response = ServerError ''Failed to update submission''\<rparr>
      | Some (Refused r) \<Rightarrow> \<lparr>written = None, result_object = None, response = r\<rparr>
      | Some (Stored submissions record) \<Rightarrow>
          if \<not> write_ok e
          then \<lparr>written = None, result_object = Some record,
                response = ServerError ''Failed to update submission''\<rparr>
          else \<lparr>written = Some (JArr submissions), result_object = Some record,
                response = Updated ''Submission updated successfully'' (JObj record)\<rparr>)"

section \<open>Tension history: GET /api/user-tension-history/:email\<close>

definition predefinedTensions :: "string list" where
  "predefinedTensions =
     [''Privacy vs. Transparency'',
      ''Accuracy vs. Fairness'',
      ''Autonomy vs. Safety'',
      ''Efficiency vs. Explainability'',
      ''Innovation vs. Regulation'',
      ''Individual vs. Collective Good'',
      ''Accessibility vs. Complexity'',
      ''Customization vs. Standardization'']"

text \<open>
  \<^verbatim>\<open>predefinedTensions.includes(v)\<close>, and \<^verbatim>\<open>userTensions.has(v)\<close> for the set of the
  values seen so far, kept as the list of its insertions. Both compare primitives by
  value; an object or an array is only the same as itself, and the values of one parsed
  document are all different objects.
\<close>

definition includes_js :: "string list \<Rightarrow> json option \<Rightarrow> bool" where
  "includes_js xs v = list_ex (\<lambda>x. strict_eq (Some (JStr x)) v) xs"

definition set_has :: "json list \<Rightarrow> json option \<Rightarrow> bool" where
  "set_has seen v = list_ex (\<lambda>x. strict_eq (Some x) v) seen"

text \<open>
  The three nested \<^verbatim>\<open>forEach\<close> callbacks (lines 607-628 and 632-653, which differ in
  the \<open>source\<close> label only). The state is the set \<^verbatim>\<open>userTensions\<close> and the list
  \<^verbatim>\<open>userTensionDetails\<close>.
\<close>

type_synonym tensions = "json list \<times> obj list"

definition tension_item :: "string \<Rightarrow> json \<Rightarrow> tensions \<Rightarrow> json \<Rightarrow> tensions option" where
  "tension_item source sub st tensionItem =
     do {
       v \<leftarrow> field tensionItem ''value'';
       case v of
         None \<Rightarrow> Some st
       | Some tension \<Rightarrow>
           if truthy v \<and> \<not> set_has (fst st) v \<and> \<not> includes_js predefinedTensions v
           then
             do {
               d \<leftarrow> field tensionItem ''definition'';
               submittedAt \<leftarrow> field sub ''submittedAt'';
               Some (fst st @ [tension],
                     snd st @
                       [Map.empty
                          (''value'' := v,
                           ''definition'' := js_or d (Some (JStr [])),
                           ''source'' := Some (JStr source),
                           ''submissionDate'' := submittedAt)])
             }
           else Some st
     }"

definition tension_case :: "string \<Rightarrow> json \<Rightarrow> tensions \<Rightarrow> json \<Rightarrow> tensions option" where
  "tension_case source sub st caseItem =
     do {
       ts \<leftarrow> field caseItem ''tensions'';
       case ts of
         Some (JArr items) \<Rightarrow> forEach_js (tension_item source sub) st items
       | _ \<Rightarrow> Some st
     }"

definition tension_submission :: "string \<Rightarrow> tensions \<Rightarrow> json \<Rightarrow> tensions option" where
  "tension_submission source st sub =
     do {
       cs \<leftarrow> field sub ''cases'';
       case cs of
         Some (JArr cases) \<Rightarrow> forEach_js (tension_case source sub) st cases
       | _ \<Rightarrow> Some st
     }"

text \<open>The two \<^verbatim>\<open>filter\<close> callbacks (lines 606 and 631).\<close>

definition has_email :: "string \<Rightarrow> json \<Rightarrow> bool option" where
  "has_email email sub =
     do { m \<leftarrow> field sub ''email''; Some (strict_eq m (Some (JStr email))) }"

definition has_author_or_email :: "string \<Rightarrow> json \<Rightarrow> bool option" where
  "has_author_or_email email sub =
     do {
       a \<leftarrow> field sub ''author'';
       if strict_eq a (Some (JStr email)) then Some True
       else do { m \<leftarrow> field sub ''email''; Some (strict_eq m (Some (JStr email))) }
     }"

definition collect_tensions :: "json \<Rightarrow> json \<Rightarrow> string \<Rightarrow> obj list option" where
  "collect_tensions focusGroupData individualData email =
     do {
       focusGroup \<leftarrow> as_array focusGroupData;
       userFocusGroupSubmissions \<leftarrow> filter_js (has_email email) focusGroup;
       st \<leftarrow> forEach_js (tension_submission ''focus-group'') ([], []) userFocusGroupSubmissions;
       individual \<leftarrow> as_array individualData;
       userIndividualSubmissions \<leftarrow> filter_js (has_author_or_email email) individual;
       st' \<leftarrow> forEach_js (tension_submission ''individual'') st userIndividualSubmissions;
       Some (snd st')
     }"

definition user_tension_history :: "file_state \<Rightarrow> file_state \<Rightarrow> string \<Rightarrow> response" where
  "user_tension_history focusGroupFile submissionsFile email =
     (case collect_tensions (loadFocusGroupSubmissions focusGroupFile)
             (loadSubmissions submissionsFile) email of
        None \<Rightarrow> ServerError ''Failed to fetch user tension history''
      | Some userTensionDetails \<Rightarrow>
          History userTensionDetails (length userTensionDetails)
            (length userTensionDetails > 0))"

section \<open>Invariants\<close>

text \<open>
  Every record that is an edited version of \<open>key\<close> (with \<open>isEditedVersion\<close>
  \<^verbatim>\<open>true\<close>) stands before every other record that the handler's scan takes for an
  edited version of \<open>key\<close> (with a truthy \<open>isEditedVersion\<close>): it is the one the scan
  finds.
\<close>

definition edits_at_front :: "string \<Rightarrow> json list \<Rightarrow> bool" where
  "edits_at_front key store =
     (\<forall>i<length store. edited_for key (store ! i) \<longrightarrow>
        (\<forall>j<i. is_edited_version_of (Some (JStr key)) (store ! j) \<noteq> Some True))"

text \<open>No entry collected so far has a predefined tension as its \<open>value\<close>.\<close>

definition only_custom :: "tensions \<Rightarrow> bool" where
  "only_custom st = (\<forall>d\<in>set (snd st). \<not> includes_js predefinedTensions (d ''value''))"

section \<open>Sample data\<close>

text \<open>
  A store with one submission, a clock and a disk, and the requests used below to run
  the handlers on concrete inputs.
\<close>

definition alice :: obj where
  "alice =
     [''username'' \<mapsto> JStr ''alice'',
      ''email'' \<mapsto> JStr ''a@x.com'',
      ''submittedAt'' \<mapsto> JStr ''2024-01-01T00:00:00Z'',
      ''cases'' \<mapsto> JArr []]"

definition alice_key :: string where
  "alice_key = ''alice|a@x.com|2024-01-01T00:00:00Z''"

definition env0 :: env where
  "env0 =
     \<lparr>now = (\<lambda>n. if n = 0 then ''2024-02-01T10:00:00.000Z''
                 else if n = 1 then ''2024-02-01T10:00:00.001Z''
                 else ''2024-02-01T10:00:00.002Z''),
      write_ok = True\<rparr>"

definition edit_alice :: edit_request where
  "edit_alice =
     \<lparr>originalSubmissionId = Some (JStr alice_key),
      editedData = Some (JObj [''conceptCard'' \<mapsto> JStr ''first'']),
      facilitatorComment = None,
      editedBy = Some (JStr ''facilitator'')\<rparr>"

definition edit_alice_again :: edit_request where
  "edit_alice_again =
     \<lparr>originalSubmissionId = Some (JStr alice_key),
      editedData = Some (JObj [''conceptCard'' \<mapsto> JStr ''second'']),
      facilitatorComment = None,
      editedBy = Some (JStr ''reviewer'')\<rparr>"

definition edit_bob :: edit_request where
  "edit_bob =
     \<lparr>originalSubmissionId = Some (JStr ''bob|b@x.com|2024-01-01T00:00:00Z''),
      editedData = Some (JObj Map.empty),
      facilitatorComment = None,
      editedBy = None\<rparr>"


definition pending_study :: obj where
  "pending_study =
     [''id'' \<mapsto> JStr ''1700000000000'',
      ''title'' \<mapsto> JStr ''Chatbot triage'',
      ''author'' \<mapsto> JStr ''alice'',
      ''submittedAt'' \<mapsto> JStr ''2024-01-05T09:00:00.000Z'',
      ''status'' \<mapsto> JStr ''pending'']"

definition update_body :: "json option" where
  "update_body =
     Some (JObj [''id'' \<mapsto> JStr ''42'',
                 ''submittedAt'' \<mapsto> JStr ''1999-12-31T23:59:59.000Z'',
                 ''title'' \<mapsto> JStr ''Chatbot triage, revised''])"

definition privacy_item :: json where
  "privacy_item = JObj [''value'' \<mapsto> JStr ''Privacy vs. Transparency'']"

definition custom_item :: json where
  "custom_item =
     JObj [''value'' \<mapsto> JStr ''Speed vs. Care'',
           ''definition'' \<mapsto> JStr ''Fast answers against careful ones'']"

definition focus_group_file :: file_state where
  "focus_group_file =
     Parsed (JArr
       [JObj [''email'' \<mapsto> JStr ''a@x.com'',
              ''submittedAt'' \<mapsto> JStr ''2024-01-01T00:00:00Z'',
              ''cases'' \<mapsto>
                JArr [JObj [''tensions'' \<mapsto> JArr [privacy_item, custom_item, privacy_item]]]]])"

definition submissions_file :: file_state where
  "submissions_file =
     Parsed (JArr
       [JObj [''author'' \<mapsto> JStr ''a@x.com'',
              ''cases'' \<mapsto>
                JArr [JObj [''tensions'' \<mapsto> JArr [privacy_item, custom_item]]]]])"


section \<open>Merging and identity\<close>

text \<open>
  C4. Merge precedence: in \<open>shallow_merge a b\<close> a field present in \<open>b\<close> has \<open>b\<close>'s value
  and a field absent from \<open>b\<close> has what \<open>a\<close> has for it; with a third source the same
  holds again, the third source over the merge of the first two. So later sources win
  field by field, and a field absent from the later sources falls through.
\<close>

theorem shallow_merge_precedence:
  "(k \<in> dom (own_props b) \<longrightarrow> shallow_merge a b k = own_props b k) \<and>
   (k \<notin> dom (own_props b) \<longrightarrow> shallow_merge a b k = own_props a k) \<and>
   (k \<in> dom (own_props c) \<longrightarrow> shallow_merge3 a b c k = own_props c k) \<and>
   (k \<notin> dom (own_props c) \<longrightarrow> shallow_merge3 a b c k = shallow_merge a b k)"
  by (auto simp: shallow_merge_def shallow_merge3_def map_add_def split: option.splits)

theorem shallow_merge_precedence_witness:
  "shallow_merge3 (Some (JObj alice)) (Some (JObj [''email'' \<mapsto> JStr ''b@y.org'']))
       (Some (JObj [''note'' \<mapsto> JNull])) ''email'' = Some (JStr ''b@y.org'') \<and>
   shallow_merge (Some (JObj alice)) (Some (JObj [''email'' \<mapsto> JStr ''b@y.org'']))
       ''username'' = Some (JStr ''alice'')"
  using
    shallow_merge_precedence [of "''email''" "Some (JObj [''email'' \<mapsto> JStr ''b@y.org''])"
      "Some (JObj alice)" "Some (JObj [''note'' \<mapsto> JNull])"]
    shallow_merge_precedence [of "''username''" "Some (JObj [''email'' \<mapsto> JStr ''b@y.org''])"
      "Some (JObj alice)" "Some (JObj [''note'' \<mapsto> JNull])"]
  by (simp add: alice_def)

text \<open>
  C5. The identity key of a submission whose \<open>username\<close>, \<open>email\<close> and
  \<open>submittedAt\<close> are strings is these three strings joined by \<open>|\<close>; and the key
  depends on these three fields only: two values that agree on them have the same key
  (or both have none).
\<close>

theorem identityKey_spec:
  "(field sub ''username'' = Some (Some (JStr u)) \<and>
    field sub ''email'' = Some (Some (JStr m)) \<and>
    field sub ''submittedAt'' = Some (Some (JStr t))
      \<longrightarrow> identityKey sub = Some (u @ ''|'' @ m @ ''|'' @ t)) \<and>
   (field sub ''username'' = field sub' ''username'' \<and>
    field sub ''email'' = field sub' ''email'' \<and>
    field sub ''submittedAt'' = field sub' ''submittedAt''
      \<longrightarrow> identityKey sub = identityKey sub')"
  by (simp add: identityKey_def template_hole_def)

theorem identityKey_spec_witness:
  "identityKey (JObj alice) = Some ''alice|a@x.com|2024-01-01T00:00:00Z'' \<and>
   identityKey (JObj alice) = identityKey (JObj (alice(''cases'' \<mapsto> JNull)))"
proof -
  have f: "field (JObj alice) ''username'' = Some (Some (JStr ''alice'')) \<and>
           field (JObj alice) ''email'' = Some (Some (JStr ''a@x.com'')) \<and>
           field (JObj alice) ''submittedAt'' = Some (Some (JStr ''2024-01-01T00:00:00Z''))"
    by (simp add: alice_def)
  have g: "field (JObj alice) ''username'' = field (JObj (alice(''cases'' \<mapsto> JNull))) ''username'' \<and>
           field (JObj alice) ''email'' = field (JObj (alice(''cases'' \<mapsto> JNull))) ''email'' \<and>
           field (JObj alice) ''submittedAt'' = field (JObj (alice(''cases'' \<mapsto> JNull))) ''submittedAt''"
    by simp
  from identityKey_spec [of "JObj alice" "''alice''" "''a@x.com''" "''2024-01-01T00:00:00Z''"
      "JObj (alice(''cases'' \<mapsto> JNull))"] f g
  have a: "identityKey (JObj alice) = Some (''alice'' @ ''|'' @ ''a@x.com'' @ ''|'' @ ''2024-01-01T00:00:00Z'')"
    and b: "identityKey (JObj alice) = identityKey (JObj (alice(''cases'' \<mapsto> JNull)))"
    by blast+
  from a have "identityKey (JObj alice) = Some ''alice|a@x.com|2024-01-01T00:00:00Z''"
    by simp
  with b show ?thesis by (rule conjI[rotated])
qed

section \<open>Scanning the store\<close>

lemma find_js_none: "find_js p xs = Some None \<longleftrightarrow> (\<forall>x\<in>set xs. p x = Some False)"
  by (induction xs) (auto split: option.splits)

lemma find_js_first:
  "find_js p xs = Some (Some x) \<Longrightarrow>
     \<exists>i<length xs. xs ! i = x \<and> p x = Some True \<and> (\<forall>j<i. p (xs ! j) = Some False) \<and>
       findIndex_from p n xs = Some (int (n + i))"
proof (induction xs arbitrary: n)
  case Nil
  then show ?case by simp
next
  case (Cons y ys)
  show ?case
  proof (cases "p y")
    case None
    with Cons.prems show ?thesis by simp
  next
    case (Some b)
    show ?thesis
    proof (cases b)
      case True
      with Some Cons.prems have "y = x" by simp
      with True Some show ?thesis by (intro exI[of _ 0]) simp
    next
      case False
      with Some Cons.prems have "find_js p ys = Some (Some x)" by simp
      from Cons.IH[OF this, of "Suc n"] obtain i where
        i: "i < length ys" "ys ! i = x" "p x = Some True"
           "\<forall>j<i. p (ys ! j) = Some False"
           "findIndex_from p (Suc n) ys = Some (int (Suc n + i))"
        by blast
      have "\<forall>j<Suc i. p ((y # ys) ! j) = Some False"
        using i(4) Some False by (auto simp: nth_Cons split: nat.splits)
      with i Some False show ?thesis
        by (intro exI[of _ "Suc i"]) simp
    qed
  qed
qed

lemma assign_index_in: "i < length xs \<Longrightarrow> assign_index xs (int i) v = xs[i := v]"
  by (simp add: assign_index_def)

section \<open>Edit reconciliation\<close>

lemma reconcile_Missing:
  "reconcile e (JArr store) req = Some Missing \<longleftrightarrow>
     (\<exists>found. find_js (is_original (originalSubmissionId req)) store = Some found \<and>
        \<not> truthy found)"
  by (auto simp: reconcile_def apply_edit_def Let_def
      split: option.splits Option.bind_splits if_splits)

text \<open>
  The three ways in which the handler gets to its write: an edited version of the
  submission is there and is replaced where it stands; or none is there, the addressed
  record is itself an edited version, and it is replaced where it stands; or neither,
  and a new edited version is appended.
\<close>

lemma reconcile_cases:
  assumes "reconcile e (JArr store) req = Some (Reconciled store' new isNew)"
  shows "\<exists>original. find_js (is_original (originalSubmissionId req)) store = Some (Some original) \<and>
    truthy (Some original) \<and>
    ((\<exists>i<length store.
        is_edited_version_of (originalSubmissionId req) (store ! i) = Some True \<and>
        (\<forall>j<i. is_edited_version_of (originalSubmissionId req) (store ! j) = Some False) \<and>
        new = updated_edit e req original (store ! i) \<and>
        store' = store[i := JObj new] \<and> \<not> isNew)
     \<or> ((\<forall>s\<in>set store. is_edited_version_of (originalSubmissionId req) s = Some False) \<and>
         (\<exists>i<length store.
            is_edited_with_key (originalSubmissionId req) (store ! i) = Some True \<and>
            (\<forall>j<i. is_edited_with_key (originalSubmissionId req) (store ! j) = Some False) \<and>
            new = updated_in_place e req (store ! i) \<and>
            store' = store[i := JObj new] \<and> \<not> isNew))
     \<or> ((\<forall>s\<in>set store. is_edited_version_of (originalSubmissionId req) s = Some False) \<and>
         (\<forall>s\<in>set store. is_edited_with_key (originalSubmissionId req) s = Some False) \<and>
         new = new_edit e req original \<and>
         store' = store @ [JObj new] \<and> isNew))"
proof -
  let ?oid = "originalSubmissionId req"
  from assms obtain original where
    o: "find_js (is_original ?oid) store = Some (Some original)" and
    t: "truthy (Some original)"
    by (auto simp: reconcile_def split: option.splits Option.bind_splits if_splits)
  with assms have a: "apply_edit e store req original = Some (Reconciled store' new isNew)"
    by (simp add: reconcile_def)
  then obtain ex ed where
    ex: "find_js (is_edited_version_of ?oid) store = Some ex" and
    ed: "find_js (is_edited_with_key ?oid) store = Some ed"
    by (auto simp: apply_edit_def split: option.splits Option.bind_splits)
  show ?thesis
  proof (cases ex)
    case (Some existing)
    from find_js_first[OF ex[unfolded Some], of 0] obtain i where
      i: "i < length store" "store ! i = existing"
         "is_edited_version_of ?oid existing = Some True"
         "\<forall>j<i. is_edited_version_of ?oid (store ! j) = Some False"
         "findIndex_from (is_edited_version_of ?oid) 0 store = Some (int i)"
      by auto
    from a ex ed Some i have
      "new = updated_edit e req original (store ! i) \<and> store' = store[i := JObj new] \<and> \<not> isNew"
      by (auto simp: apply_edit_def findIndex_js_def assign_index_in Let_def)
    with o t i show ?thesis by blast
  next
    case None
    note exNone = this
    have allF: "\<forall>s\<in>set store. is_edited_version_of ?oid s = Some False"
      using ex None find_js_none by metis
    show ?thesis
    proof (cases ed)
      case (Some editing)
      from find_js_first[OF ed[unfolded Some], of 0] obtain i where
        i: "i < length store" "store ! i = editing"
           "is_edited_with_key ?oid editing = Some True"
           "\<forall>j<i. is_edited_with_key ?oid (store ! j) = Some False"
           "findIndex_from (is_edited_with_key ?oid) 0 store = Some (int i)"
        by auto
      from a ex ed Some exNone i have
        "new = updated_in_place e req (store ! i) \<and> store' = store[i := JObj new] \<and> \<not> isNew"
        by (auto simp: apply_edit_def findIndex_js_def assign_index_in Let_def)
      with o t i allF show ?thesis by blast
    next
      case None
      have allF2: "\<forall>s\<in>set store. is_edited_with_key ?oid s = Some False"
        using ed None find_js_none by metis
      from a ex ed None exNone have
        "new = new_edit e req original \<and> store' = store @ [JObj new] \<and> isNew"
        by (auto simp: apply_edit_def Let_def)
      with o t allF allF2 show ?thesis by blast
    qed
  qed
qed

text \<open>
  C6. On a loaded store whose elements are all truthy (as every object is) and all
  have an identity key, the handler answers 404 "Original submission not found" exactly
  when no record's identity key is the requested \<open>originalSubmissionId\<close>; and
  whenever it answers so, on any file, it has written nothing, so the stored collection
  is as it was.
\<close>

theorem not_found_iff:
  assumes "\<forall>sub\<in>set store. truthy (Some sub) \<and> identityKey sub \<noteq> None"
  shows "(response (save_edited_submission e (Parsed (JArr store)) req)
            = NotFound ''Original submission not found''
          \<longleftrightarrow> \<not> (\<exists>sub\<in>set store. \<exists>k. identityKey sub = Some k \<and>
                     strict_eq (Some (JStr k)) (originalSubmissionId req)))
       \<and> (response (save_edited_submission e file req) = NotFound ''Original submission not found''
          \<longrightarrow> written (save_edited_submission e file req) = None \<and>
              file_after file (save_edited_submission e file req) = file)"
proof -
  have a: "find_js (is_original (originalSubmissionId req)) store = Some None \<longleftrightarrow>
     \<not> (\<exists>sub\<in>set store. \<exists>k. identityKey sub = Some k \<and>
          strict_eq (Some (JStr k)) (originalSubmissionId req))"
    using assms unfolding find_js_none
    by (auto simp: is_original_def split: Option.bind_splits)
  have t: "found = None"
    if "find_js (is_original (originalSubmissionId req)) store = Some found" "\<not> truthy found"
    for found
  proof (cases found)
    case (Some x)
    from find_js_first[OF that(1)[unfolded Some], of 0] have "x \<in> set store" by auto
    with assms that(2) Some show ?thesis by auto
  qed simp
  have m: "reconcile e (JArr store) req = Some Missing \<longleftrightarrow>
      find_js (is_original (originalSubmissionId req)) store = Some None"
    unfolding reconcile_Missing using t by auto
  have b: "response (save_edited_submission e (Parsed (JArr store)) req)
            = NotFound ''Original submission not found'' \<longleftrightarrow>
        reconcile e (JArr store) req = Some Missing"
    by (auto simp: save_edited_submission_def edit_failed_def
        split: option.splits reconciled.splits)
  have c: "response (save_edited_submission e file req) = NotFound ''Original submission not found''
          \<longrightarrow> written (save_edited_submission e file req) = None"
    by (auto simp: save_edited_submission_def edit_failed_def
        split: option.splits reconciled.splits if_splits)
  then have d: "response (save_edited_submission e file req) = NotFound ''Original submission not found''
          \<longrightarrow> file_after file (save_edited_submission e file req) = file"
    by (simp add: file_after_def)
  show ?thesis using a b c d m by blast
qed

theorem not_found_iff_witness:
  "identityKey (JObj alice) \<noteq> None \<and>
   response (save_edited_submission env0 (Parsed (JArr [JObj alice])) edit_bob)
     = NotFound ''Original submission not found'' \<and>
   file_after (Parsed (JArr [JObj alice]))
     (save_edited_submission env0 (Parsed (JArr [JObj alice])) edit_bob)
     = Parsed (JArr [JObj alice])"
proof -
  have h: "\<forall>sub\<in>set [JObj alice]. truthy (Some sub) \<and> identityKey sub \<noteq> None"
    by (simp add: identityKey_def template_hole_def alice_def)
  have k: "identityKey (JObj alice) = Some alice_key"
    by (simp add: identityKey_def template_hole_def alice_def alice_key_def)
  show ?thesis
    using not_found_iff [OF h, of env0 edit_bob "Parsed (JArr [JObj alice])"]
    by (simp add: k alice_key_def edit_bob_def)
qed






lemma env0_writes: "write_ok env0"
  by (simp add: env0_def)











section \<open>Loading\<close>

text \<open>
  C8. The loader answers the empty array for a file that is absent, unreadable or not
  JSON. The edit handler does not go through it: it parses the file itself, and on an
  unreadable file it answers 500, where the empty array would have given the 404 of a
  missing original.
\<close>

theorem edit_reads_file_unguarded:
  "loadFocusGroupSubmissions Unreadable = JArr [] \<and>
   loadFocusGroupSubmissions Malformed = JArr [] \<and>
   response (save_edited_submission e Unreadable req)
     = ServerError ''Failed to save edited submission'' \<and>
   response (save_edited_submission e (Parsed (loadFocusGroupSubmissions Unreadable)) req)
     = NotFound ''Original submission not found''"
  by (simp add: loadFocusGroupSubmissions_def save_edited_submission_def edit_failed_def
      reconcile_def)

section \<open>A single edited version\<close>

lemma edited_for_matches:
  "edited_for key s \<Longrightarrow> is_edited_version_of (Some (JStr key)) s = Some True"
  by (simp add: edited_for_def is_edited_version_of_def)

lemma reconcile_keeps_front:
  assumes inv: "edits_at_front key store"
    and oid: "originalSubmissionId req = Some (JStr key)"
    and r: "reconcile e (JArr store) req = Some (Reconciled store' new isNew)"
  shows "edits_at_front key store'"
proof -
  let ?p = "is_edited_version_of (Some (JStr key))"
  from reconcile_cases[OF r, unfolded oid] consider
    (replace) i where "i < length store" "?p (store ! i) = Some True"
      "\<forall>j<i. ?p (store ! j) = Some False" "store' = store[i := JObj new]"
  | (inplace) i where "\<forall>s\<in>set store. ?p s = Some False" "i < length store"
      "store' = store[i := JObj new]"
  | (append) "\<forall>s\<in>set store. ?p s = Some False" "store' = store @ [JObj new]"
    by blast
  then show ?thesis
  proof cases
    case replace
    show ?thesis unfolding edits_at_front_def
    proof (intro allI impI)
      fix k j assume k: "k < length store'" "edited_for key (store' ! k)" and j: "j < k"
      show "?p (store' ! j) \<noteq> Some True"
      proof (cases "k = i")
        case True
        with j replace show ?thesis by simp
      next
        case False
        with k replace have ek: "edited_for key (store ! k)" "k < length store" by simp_all
        from edited_for_matches[OF ek(1)] replace(3) have "\<not> k < i" by auto
        with False have "i < k" by simp
        with inv ek replace(2) show ?thesis by (auto simp: edits_at_front_def)
      qed
    qed
  next
    case inplace
    show ?thesis unfolding edits_at_front_def
    proof (intro allI impI)
      fix k j assume k: "k < length store'" "edited_for key (store' ! k)" and j: "j < k"
      show "?p (store' ! j) \<noteq> Some True"
      proof (cases "k = i")
        case True
        with j inplace have "store' ! j = store ! j" "j < length store" by simp_all
        with inplace(1) show ?thesis by (metis nth_mem option.inject)
      next
        case False
        with k inplace have ek: "edited_for key (store ! k)" "k < length store" by simp_all
        from edited_for_matches[OF ek(1)] inplace(1) ek(2) show ?thesis
          by (metis nth_mem option.inject)
      qed
    qed
  next
    case append
    show ?thesis unfolding edits_at_front_def
    proof (intro allI impI)
      fix k j assume k: "k < length store'" "edited_for key (store' ! k)" and j: "j < k"
      show "?p (store' ! j) \<noteq> Some True"
      proof (cases "k < length store")
        case True
        with k append have ek: "edited_for key (store ! k)" by (simp add: nth_append)
        from edited_for_matches[OF ek] append(1) True show ?thesis
          by (metis nth_mem option.inject)
      next
        case False
        with k append have "k = length store" by simp
        with j append have "store' ! j = store ! j" "j < length store" by (simp_all add: nth_append)
        with append(1) show ?thesis by (metis nth_mem option.inject)
      qed
    qed
  qed
qed

lemma edit_keeps_front:
  assumes inv: "edits_at_front key store"
    and oid: "originalSubmissionId req = Some (JStr key)"
  shows "\<exists>store'. file_after (Parsed (JArr store)) (save_edited_submission e (Parsed (JArr store)) req)
            = Parsed (JArr store') \<and> edits_at_front key store'"
proof (cases "reconcile e (JArr store) req")
  case None
  then show ?thesis using inv
    by (simp add: save_edited_submission_def file_after_def)
next
  case (Some r)
  show ?thesis
  proof (cases r)
    case Missing
    with Some show ?thesis using inv
      by (simp add: save_edited_submission_def file_after_def)
  next
    case (Reconciled store' new isNew)
    from reconcile_keeps_front[OF inv oid Some[unfolded Reconciled]]
    have "edits_at_front key store'" .
    with Some Reconciled inv show ?thesis
      by (auto simp: save_edited_submission_def file_after_def split: option.splits)
  qed
qed

lemma run_edits_front:
  "edits_at_front key store \<Longrightarrow>
   \<forall>c\<in>set calls. originalSubmissionId (snd c) = Some (JStr key) \<Longrightarrow>
   \<exists>store'. run_edits (Parsed (JArr store)) calls = Parsed (JArr store') \<and>
      edits_at_front key store'"
proof (induction calls arbitrary: store)
  case Nil
  then show ?case by simp
next
  case (Cons c cs)
  from Cons.prems(2) have oid: "originalSubmissionId (snd c) = Some (JStr key)" by simp
  from edit_keeps_front[OF Cons.prems(1) oid, of "fst c"] obtain mid where
    mid: "file_after (Parsed (JArr store)) (save_edited_submission (fst c) (Parsed (JArr store)) (snd c))
            = Parsed (JArr mid)" "edits_at_front key mid"
    by blast
  from Cons.IH[OF mid(2)] Cons.prems(2) mid(1) show ?case by simp
qed

lemma front_at_most_one:
  "edits_at_front key store \<Longrightarrow> length (filter (edited_for key) store) \<le> 1"
proof (induction store)
  case Nil
  then show ?case by simp
next
  case (Cons x xs)
  have tl: "edits_at_front key xs"
    unfolding edits_at_front_def
  proof (intro allI impI)
    fix i j assume "i < length xs" "edited_for key (xs ! i)" "j < i"
    with Cons.prems show "is_edited_version_of (Some (JStr key)) (xs ! j) \<noteq> Some True"
      unfolding edits_at_front_def
      by (metis Suc_less_eq length_Cons nth_Cons_Suc)
  qed
  show ?case
  proof (cases "edited_for key x")
    case False
    with Cons.IH[OF tl] show ?thesis by simp
  next
    case True
    have "\<not> edited_for key y" if "y \<in> set xs" for y
    proof
      assume y: "edited_for key y"
      from that obtain i where i: "i < length xs" "xs ! i = y" by (auto simp: in_set_conv_nth)
      with y Cons.prems have "is_edited_version_of (Some (JStr key)) ((x # xs) ! 0) \<noteq> Some True"
        unfolding edits_at_front_def
        by (metis Suc_less_eq length_Cons nth_Cons_Suc zero_less_Suc)
      with edited_for_matches[OF True] show False by simp
    qed
    then have "filter (edited_for key) xs = []" by (simp add: filter_empty_conv)
    with True show ?thesis by simp
  qed
qed

text \<open>
  C1. From a store in which no record is an edited version of \<open>key\<close>, after any
  sequence of edit requests for \<open>key\<close> (whatever their data, clocks and disk
  behaviour), the file still holds an array, and at most one of its records has
  \<open>isEditedVersion\<close> \<^verbatim>\<open>true\<close> and \<open>originalSubmissionId\<close> equal to \<open>key\<close>.
\<close>

theorem single_edited_version:
  assumes "\<forall>sub\<in>set store. \<not> edited_for key sub"
    and "\<forall>c\<in>set calls. originalSubmissionId (snd c) = Some (JStr key)"
  shows "\<exists>store'. run_edits (Parsed (JArr store)) calls = Parsed (JArr store') \<and>
           length (filter (edited_for key) store') \<le> 1"
proof -
  from assms(1) have "edits_at_front key store"
    by (simp add: edits_at_front_def)
  from run_edits_front[OF this assms(2)] front_at_most_one show ?thesis by blast
qed

theorem single_edited_version_witness:
  "\<not> edited_for alice_key (JObj alice) \<and>
   (\<exists>store'.
      run_edits (Parsed (JArr [JObj alice])) [(env0, edit_alice), (env0, edit_alice_again)]
        = Parsed (JArr store') \<and>
      length (filter (edited_for alice_key) store') \<le> 1)"
proof -
  have h1: "\<forall>sub\<in>set [JObj alice]. \<not> edited_for alice_key sub"
    by (simp add: edited_for_def alice_def)
  have h2: "\<forall>c\<in>set [(env0, edit_alice), (env0, edit_alice_again)].
              originalSubmissionId (snd c) = Some (JStr alice_key)"
    by (simp add: edit_alice_def edit_alice_again_def)
  from single_edited_version [OF h1 h2] h1 show ?thesis by simp
qed

section \<open>Updating a case study\<close>

lemma findIndex_from_found:
  "findIndex_from p n xs = Some k \<Longrightarrow> k \<noteq> - 1 \<Longrightarrow>
     \<exists>i<length xs. k = int (n + i) \<and> p (xs ! i) = Some True \<and>
        (\<forall>j<i. p (xs ! j) = Some False)"
proof (induction xs arbitrary: n)
  case Nil
  then show ?case by simp
next
  case (Cons y ys)
  show ?case
  proof (cases "p y")
    case None
    with Cons.prems show ?thesis by simp
  next
    case (Some b)
    show ?thesis
    proof (cases b)
      case True
      with Some Cons.prems show ?thesis by (intro exI[of _ 0]) simp
    next
      case False
      with Some Cons.prems have "findIndex_from p (Suc n) ys = Some k" by simp
      from Cons.IH[OF this Cons.prems(2)] obtain i where
        i: "i < length ys" "k = int (Suc n + i)" "p (ys ! i) = Some True"
           "\<forall>j<i. p (ys ! j) = Some False"
        by blast
      have "\<forall>j<Suc i. p ((y # ys) ! j) = Some False"
        using i(4) Some False by (auto simp: nth_Cons split: nat.splits)
      with i show ?thesis
        by (intro exI[of _ "Suc i"]) simp
    qed
  qed
qed

lemma strict_eq_string: "strict_eq v (Some (JStr s)) \<longleftrightarrow> v = Some (JStr s)"
proof (cases v)
  case None
  then show ?thesis by simp
next
  case (Some j)
  then show ?thesis by (cases j) auto
qed

lemma has_id_object:
  "has_id ident s = Some True \<Longrightarrow> \<exists>old. s = JObj old \<and> old ''id'' = Some (JStr ident)"
  by (cases s) (auto simp: has_id_def strict_eq_string)

lemma apply_update_refused:
  "apply_update e loaded ident updateFields = Some (Refused r) \<Longrightarrow>
     r = NotFound ''Submission not found'' \<or> r = Forbidden ''Cannot edit an approved submission''"
  by (auto simp: apply_update_def Let_def split: Option.bind_splits if_splits)

text \<open>
  C10. When the update answers with success, the record with the requested \<open>id\<close>
  has been replaced, where it stood, by a record with the \<open>id\<close> and the
  \<open>submittedAt\<close> it had before, whatever the body says of them, with \<open>updatedAt\<close>
  the clock reading, and with every other field as the body has it, or as it was when
  the body does not have it.
\<close>

theorem update_keeps_id_and_submittedAt:
  assumes ok: "response (update_case_study e file ident updateFields) = Updated msg data"
  shows "\<exists>subs i old new.
      loadSubmissions file = JArr subs \<and> i < length subs \<and> subs ! i = JObj old \<and>
      old ''id'' = Some (JStr ident) \<and>
      written (update_case_study e file ident updateFields) = Some (JArr (subs[i := JObj new])) \<and>
      data = JObj new \<and>
      new ''id'' = old ''id'' \<and>
      new ''submittedAt'' = old ''submittedAt'' \<and>
      new ''updatedAt'' = Some (JStr (now e 0)) \<and>
      (\<forall>k. k \<notin> {''id'', ''submittedAt'', ''updatedAt''} \<longrightarrow>
           new k = (case own_props updateFields k of Some v \<Rightarrow> Some v | None \<Rightarrow> old k))"
proof -
  from ok obtain stored new where
    a: "apply_update e (loadSubmissions file) ident updateFields = Some (Stored stored new)" and
    d: "write_ok e" "data = JObj new" and
    w: "written (update_case_study e file ident updateFields) = Some (JArr stored)"
    by (auto simp: update_case_study_def split: option.splits updated.splits if_splits
        dest: apply_update_refused)
  from a obtain subs where l: "loadSubmissions file = JArr subs"
    by (cases "loadSubmissions file") (auto simp: apply_update_def)
  from a l obtain k where
    k: "findIndex_js (has_id ident) subs = Some k" "k \<noteq> - 1"
    by (auto simp: apply_update_def split: Option.bind_splits if_splits)
  from findIndex_from_found[OF k(1)[unfolded findIndex_js_def] k(2)] obtain i where
    i: "i < length subs" "k = int i" "has_id ident (subs ! i) = Some True"
    by auto
  from has_id_object[OF i(3)] obtain old where
    old: "subs ! i = JObj old" "old ''id'' = Some (JStr ident)" by blast
  have el: "element_at subs (int i) = Some (JObj old)"
    using i old by (simp add: element_at_def)
  from a l k i el have
    n: "new = (shallow_merge (Some (JObj old)) updateFields)
                (''id'' := old ''id'', ''submittedAt'' := old ''submittedAt'',
                 ''updatedAt'' := Some (JStr (now e 0)))" and
    s: "stored = subs[i := JObj new]"
    by (auto simp: apply_update_def assign_index_in Let_def split: if_splits)
  have f: "new ''id'' = old ''id'' \<and> new ''submittedAt'' = old ''submittedAt'' \<and>
     new ''updatedAt'' = Some (JStr (now e 0))"
    by (simp add: n)
  have m: "\<forall>k. k \<notin> {''id'', ''submittedAt'', ''updatedAt''} \<longrightarrow>
           new k = (case own_props updateFields k of Some v \<Rightarrow> Some v | None \<Rightarrow> old k)"
    by (simp add: n shallow_merge_def map_add_def)
  from l i(1) old w s d(2) f m show ?thesis by blast
qed

theorem update_keeps_id_and_submittedAt_witness:
  "\<exists>new.
     written (update_case_study env0 (Parsed (JArr [JObj pending_study])) ''1700000000000'' update_body)
       = Some (JArr [JObj new]) \<and>
     new ''id'' = Some (JStr ''1700000000000'') \<and>
     new ''submittedAt'' = Some (JStr ''2024-01-05T09:00:00.000Z'') \<and>
     new ''title'' = Some (JStr ''Chatbot triage, revised'') \<and>
     new ''author'' = Some (JStr ''alice'') \<and>
     new ''updatedAt'' = Some (JStr ''2024-02-01T10:00:00.000Z'')"
proof -
  let ?file = "Parsed (JArr [JObj pending_study])"
  let ?out = "update_case_study env0 ?file ''1700000000000'' update_body"
  have l: "loadSubmissions ?file = JArr [JObj pending_study]"
    by (simp add: loadSubmissions_def)
  have ix: "findIndex_js (has_id ''1700000000000'') [JObj pending_study] = Some 0"
    by (simp add: findIndex_js_def has_id_def pending_study_def)
  have el: "element_at [JObj pending_study] 0 = Some (JObj pending_study)"
    by (simp add: element_at_def)
  have st: "pending_study ''status'' = Some (JStr ''pending'')"
    by (simp add: pending_study_def)
  have "\<exists>stored new. apply_update env0 (JArr [JObj pending_study]) ''1700000000000'' update_body
          = Some (Stored stored new)"
    by (simp add: apply_update_def ix el st Let_def)
  then obtain stored new0 where
    "apply_update env0 (loadSubmissions ?file) ''1700000000000'' update_body
       = Some (Stored stored new0)"
    unfolding l by blast
  then have "response ?out = Updated ''Submission updated successfully'' (JObj new0)"
    by (simp add: update_case_study_def env0_writes)
  from update_keeps_id_and_submittedAt [OF this] obtain subs i old new where
    s: "loadSubmissions ?file = JArr subs" "i < length subs" "subs ! i = JObj old" and
    "old ''id'' = Some (JStr ''1700000000000'')" and
    w: "written ?out = Some (JArr (subs[i := JObj new]))" and
    "JObj new0 = JObj new" and
    f: "new ''id'' = old ''id''" "new ''submittedAt'' = old ''submittedAt''"
       "new ''updatedAt'' = Some (JStr (now env0 0))" and
    m: "\<forall>k. k \<notin> {''id'', ''submittedAt'', ''updatedAt''} \<longrightarrow>
           new k = (case own_props update_body k of Some v \<Rightarrow> Some v | None \<Rightarrow> old k)"
    by (elim exE conjE) (rule that)
  from s(1) l have subs: "subs = [JObj pending_study]" by simp
  with s(2) have i: "i = 0" by simp
  with s(3) subs have old: "old = pending_study" by simp
  from w subs i have w': "written ?out = Some (JArr [JObj new])" by simp
  from f(1) old have f1: "new ''id'' = Some (JStr ''1700000000000'')"
    by (simp add: pending_study_def)
  from f(2) old have f2: "new ''submittedAt'' = Some (JStr ''2024-01-05T09:00:00.000Z'')"
    by (simp add: pending_study_def)
  from f(3) have f3: "new ''updatedAt'' = Some (JStr ''2024-02-01T10:00:00.000Z'')"
    by (simp add: env0_def)
  from m have "new ''title'' = (case own_props update_body ''title'' of Some v \<Rightarrow> Some v
                                 | None \<Rightarrow> old ''title'')"
    by simp
  then have m1: "new ''title'' = Some (JStr ''Chatbot triage, revised'')"
    by (simp add: update_body_def)
  from m have "new ''author'' = (case own_props update_body ''author'' of Some v \<Rightarrow> Some v
                                  | None \<Rightarrow> old ''author'')"
    by simp
  then have m2: "new ''author'' = Some (JStr ''alice'')"
    by (simp add: update_body_def old pending_study_def)
  from w' f1 f2 f3 m1 m2 show ?thesis by blast
qed

section \<open>Tension history\<close>

lemma forEach_js_invariant:
  assumes "\<And>s x s'. P s \<Longrightarrow> f s x = Some s' \<Longrightarrow> P s'"
    and "P s" and "forEach_js f s xs = Some s'"
  shows "P s'"
  using assms(2,3)
proof (induction xs arbitrary: s)
  case Nil
  then show ?case by simp
next
  case (Cons x xs)
  from Cons.prems(2) obtain t where t: "f s x = Some t" "forEach_js f t xs = Some s'"
    by (auto split: Option.bind_splits)
  from assms(1)[OF Cons.prems(1) t(1)] have "P t" .
  from Cons.IH[OF this t(2)] show ?case .
qed

lemma tension_item_custom:
  "only_custom st \<Longrightarrow> tension_item source sub st item = Some st' \<Longrightarrow> only_custom st'"
  by (auto simp: tension_item_def only_custom_def split: Option.bind_splits option.splits if_splits)

lemma tension_case_custom:
  "only_custom st \<Longrightarrow> tension_case source sub st c = Some st' \<Longrightarrow> only_custom st'"
  by (auto simp: tension_case_def split: Option.bind_splits option.splits json.splits
      elim: forEach_js_invariant[where P = only_custom, rotated 1] tension_item_custom)

lemma tension_submission_custom:
  "only_custom st \<Longrightarrow> tension_submission source st sub = Some st' \<Longrightarrow> only_custom st'"
  by (auto simp: tension_submission_def split: Option.bind_splits option.splits json.splits
      elim: forEach_js_invariant[where P = only_custom, rotated 1] tension_case_custom)

lemma includes_js_member: "t \<in> set ts \<Longrightarrow> includes_js ts (Some (JStr t))"
  by (auto simp: includes_js_def list_ex_iff)

text \<open>
  C9. Whatever the two files hold and whoever the user is, when the handler answers
  with a history, no entry of it has a predefined tension as its \<open>value\<close>; in
  particular none has \<open>Privacy vs. Transparency\<close>, which is one of them.
\<close>

theorem predefined_tensions_excluded:
  assumes "user_tension_history focusGroupFile submissionsFile email = History details n b"
  shows "''Privacy vs. Transparency'' \<in> set predefinedTensions \<and>
         (\<forall>d\<in>set details. \<forall>t\<in>set predefinedTensions. d ''value'' \<noteq> Some (JStr t))"
proof -
  from assms have c: "collect_tensions (loadFocusGroupSubmissions focusGroupFile)
      (loadSubmissions submissionsFile) email = Some details"
    by (auto simp: user_tension_history_def split: option.splits)
  then obtain ss st ss' st' where
    1: "forEach_js (tension_submission ''focus-group'') ([], []) ss = Some st" and
    2: "forEach_js (tension_submission ''individual'') st ss' = Some st'" and
    3: "details = snd st'"
    by (auto simp: collect_tensions_def split: Option.bind_splits)
  have "only_custom ([], [])" by (simp add: only_custom_def)
  from forEach_js_invariant[where P = only_custom, OF tension_submission_custom this 1]
  have "only_custom st" .
  from forEach_js_invariant[where P = only_custom, OF tension_submission_custom this 2]
  have "only_custom st'" .
  with 3 have "\<forall>d\<in>set details. \<forall>t\<in>set predefinedTensions. d ''value'' \<noteq> Some (JStr t)"
    using includes_js_member by (fastforce simp: only_custom_def)
  moreover have "''Privacy vs. Transparency'' \<in> set predefinedTensions"
    by (simp add: predefinedTensions_def)
  ultimately show ?thesis by blast
qed

theorem predefined_tensions_excluded_witness:
  "\<exists>d. user_tension_history focus_group_file submissions_file ''a@x.com'' = History [d] 1 True \<and>
       d ''value'' = Some (JStr ''Speed vs. Care'') \<and>
       d ''source'' = Some (JStr ''focus-group'') \<and>
       d ''value'' \<noteq> Some (JStr ''Privacy vs. Transparency'')"
proof -
  let ?fg = "[''email'' \<mapsto> JStr ''a@x.com'',
              ''submittedAt'' \<mapsto> JStr ''2024-01-01T00:00:00Z'',
              ''cases'' \<mapsto>
                JArr [JObj [''tensions'' \<mapsto> JArr [privacy_item, custom_item, privacy_item]]]]"
  let ?ind = "[''author'' \<mapsto> JStr ''a@x.com'',
              ''cases'' \<mapsto>
                JArr [JObj [''tensions'' \<mapsto> JArr [privacy_item, custom_item]]]]"
  let ?d = "Map.empty
               (''value'' := Some (JStr ''Speed vs. Care''),
                ''definition'' := Some (JStr ''Fast answers against careful ones''),
                ''source'' := Some (JStr ''focus-group''),
                ''submissionDate'' := Some (JStr ''2024-01-01T00:00:00Z''))"
  have p: "includes_js predefinedTensions (Some (JStr ''Privacy vs. Transparency''))"
    by (simp add: includes_js_def predefinedTensions_def)
  have c: "\<not> includes_js predefinedTensions (Some (JStr ''Speed vs. Care''))"
    by (simp add: includes_js_def predefinedTensions_def)
  have i1: "tension_item source sub st privacy_item = Some st" for source sub st
    by (simp add: tension_item_def privacy_item_def p)
  have i2: "tension_item ''focus-group'' (JObj ?fg) ([], []) custom_item =
      Some ([JStr ''Speed vs. Care''], [?d])"
    by (simp add: tension_item_def custom_item_def c set_has_def js_or_def)
  have i3: "tension_item source sub ([JStr ''Speed vs. Care''], ds) custom_item =
      Some ([JStr ''Speed vs. Care''], ds)" for source sub ds
    by (simp add: tension_item_def custom_item_def set_has_def)
  have s1: "tension_submission ''focus-group'' ([], []) (JObj ?fg)
      = Some ([JStr ''Speed vs. Care''], [?d])"
    unfolding tension_submission_def tension_case_def by (simp add: i1 i2)
  have s2: "tension_submission ''individual'' ([JStr ''Speed vs. Care''], ds) (JObj ?ind)
      = Some ([JStr ''Speed vs. Care''], ds)" for ds
    unfolding tension_submission_def tension_case_def by (simp add: i1 i3)
  have f1: "has_email ''a@x.com'' (JObj ?fg) = Some True"
    by (simp add: has_email_def)
  have f2: "has_author_or_email ''a@x.com'' (JObj ?ind) = Some True"
    by (simp add: has_author_or_email_def)
  have "collect_tensions (JArr [JObj ?fg]) (JArr [JObj ?ind]) ''a@x.com'' = Some [?d]"
    unfolding collect_tensions_def by (simp add: f1 f2 s1 s2)
  then have h: "user_tension_history focus_group_file submissions_file ''a@x.com''
      = History [?d] 1 True"
    by (simp add: user_tension_history_def focus_group_file_def submissions_file_def
        loadFocusGroupSubmissions_def loadSubmissions_def)
  from predefined_tensions_excluded [OF h] have
    "?d ''value'' \<noteq> Some (JStr ''Privacy vs. Transparency'')" by simp
  with h show ?thesis by (intro exI[of _ ?d]) simp
qed

end
